theory Spec2Isabelle
  imports Main "HOL-Library.Word"
begin

section \<open>Member lookup of lib/Sema/NameLookup.cpp\<close>

subsection \<open>Declarations and types\<close>

type_synonym Identifier = string

text \<open>
  The classes of value declarations that the lookup distinguishes with
  \<open>dyn_cast\<close>/\<open>isa\<close>/\<open>cast\<close>: functions (static or not), variables, type
  declarations and the elements of a oneof.
\<close>

datatype DeclClass = FuncDecl (isStatic: bool) | VarDecl | TypeDecl | OneOfElementDecl

text \<open>
  A \<open>ValueDecl*\<close>: \<open>declId\<close> stands for the identity of the pointer, so that two
  declarations of one name and class stay distinct.
\<close>

record ValueDecl =
  declId :: nat
  getName :: Identifier
  declClass :: DeclClass

text \<open>The qualifier set of an l-value type; the source names the bit \<open>Implicit\<close> only.\<close>

datatype QualBit = Implicit | OtherQual nat

type_synonym Qual = "QualBit set"

text \<open>
  The shapes of \<open>Type\<close> that \<open>getAs\<close>/\<open>castTo\<close> ask for in this file.
  \<^item> \<open>LValueType obj qs\<close>: \<open>getObjectType\<close> and \<open>getQualifiers\<close>.
  \<^item> \<open>MetaTypeType ty\<close>: \<open>ty\<close> is \<open>getTypeDecl()->getDeclaredType()\<close>.
  \<^item> \<open>ModuleType lv\<close>: \<open>lv name\<close> is what \<open>getModule()->lookupValue\<close> delivers for
    a qualified lookup of \<open>name\<close> with the empty access path.
  \<^item> \<open>ProtocolType n elts\<close>: \<open>elts\<close> is \<open>getDecl()->getElements()\<close>.
  \<^item> \<open>TupleType fields\<close>: the fields, each with its name (empty when unnamed) and type.
  \<^item> \<open>OneOfType n elts tr\<close>: \<open>elts\<close> are the element declarations of the oneof;
    \<open>tr\<close> is \<open>Some t\<close> when \<open>isTransparentType()\<close> holds, \<open>t\<close> being
    \<open>getTransparentType()\<close>.
  \<^item> \<open>OtherType n\<close>: every other type.
\<close>

datatype Type =
    LValueType Type Qual
  | MetaTypeType Type
  | ModuleType "Identifier \<Rightarrow> ValueDecl list"
  | ProtocolType string "ValueDecl list"
  | TupleType "(Identifier \<times> Type) list"
  | OneOfType string "ValueDecl list" "Type option"
  | OtherType string

text \<open>
  The module \<open>M\<close> handed to the lookup; \<open>doIt\<close> calls
  \<open>lookupGlobalExtensionMethods\<close> on it and nothing else.
\<close>

record Module =
  lookupGlobalExtensionMethods :: "Type \<Rightarrow> Identifier \<Rightarrow> ValueDecl list"

subsection \<open>Lookup results\<close>

datatype KindTy = PassBase | IgnoreBase | TupleElement | StructElement

text \<open>
  Modelled from the spec: \<open>MemberLookupResult\<close> (NameLookup.h, not in this file), "a
  tagged variant with exactly these forms": the kind, and either the declaration found
  (\<open>D\<close>) or the number of the tuple field (\<open>TupleFieldNo\<close>). The constructors carry the
  names of the functions that the source builds a result with; \<open>getTupleElement\<close> makes
  the third or the fourth form, by its flag.
\<close>

datatype MemberLookupResult =
    getPassBase ValueDecl
  | getIgnoreBase ValueDecl
  | TupleElementResult nat
  | StructElementResult nat

fun Kind :: "MemberLookupResult \<Rightarrow> KindTy" where
  "Kind (getPassBase d) = PassBase"
| "Kind (getIgnoreBase d) = IgnoreBase"
| "Kind (TupleElementResult i) = TupleElement"
| "Kind (StructElementResult i) = StructElement"

definition getTupleElement :: "nat \<Rightarrow> bool \<Rightarrow> MemberLookupResult" where
  "getTupleElement FieldNo IsStruct =
     (if IsStruct then StructElementResult FieldNo else TupleElementResult FieldNo)"

subsection \<open>Helpers of other files that the lookup calls\<close>

text \<open>
  Modelled from the spec: \<open>TupleType::getNamedElementId\<close> (lib/AST, not in this file).
  "If the tuple type has a field whose declared name equals \<open>name\<close>", the result is
  "that field's index"; the source compares the result with \<open>-1\<close> for "no such field".
\<close>

fun getNamedElementId :: "(Identifier \<times> Type) list \<Rightarrow> Identifier \<Rightarrow> int" where
  "getNamedElementId [] I = - 1"
| "getNamedElementId (f # fs) I =
     (if fst f = I then 0
      else (let r = getNamedElementId fs I in if r = - 1 then - 1 else r + 1))"

text \<open>
  Modelled from the spec: \<open>OneOfDecl::getElement\<close> (lib/AST, not in this file): the
  element of the oneof "literally named \<open>name\<close>", if there is one.
\<close>

fun getElement :: "ValueDecl list \<Rightarrow> Identifier \<Rightarrow> ValueDecl option" where
  "getElement [] Name = None"
| "getElement (e # es) Name = (if getName e = Name then Some e else getElement es Name)"

text \<open>
  Modelled from the spec: \<open>StringRef::getAsInteger(10, Value)\<close> with an \<open>unsigned\<close>
  (32-bit) result, of the support library. "Parse the digits as a base-10 unsigned
  integer"; parsing fails on the empty string, on a character that is no decimal digit,
  and on a value that the result type cannot hold. The source reads a \<open>false\<close> result as
  success; here success is \<open>Some Value\<close>.
\<close>

fun parseDigits :: "string \<Rightarrow> nat \<Rightarrow> nat option" where
  "parseDigits [] acc = Some acc"
| "parseDigits (c # cs) acc =
     (let v = (of_char c :: nat)
      in if 48 \<le> v \<and> v \<le> 57 then parseDigits cs (acc * 10 + (v - 48)) else None)"

definition getAsInteger :: "string \<Rightarrow> 32 word option" where
  "getAsInteger s =
     (if s = [] then None
      else (case parseDigits s 0 of
              None \<Rightarrow> None
            | Some v \<Rightarrow> if v < 2 ^ 32 then Some (word_of_nat v) else None))"

subsection \<open>MemberLookup::doTuple\<close>

definition startswith :: "string \<Rightarrow> string \<Rightarrow> bool" where
  "startswith s p = (take (length p) s = p)"

definition doTuple ::
  "(Identifier \<times> Type) list \<Rightarrow> Identifier \<Rightarrow> bool \<Rightarrow> MemberLookupResult list
     \<Rightarrow> MemberLookupResult list" where
  "doTuple TT Name IsStruct Results =
     (let FieldNo = getNamedElementId TT Name
      in if FieldNo \<noteq> - 1 then Results @ [getTupleElement (nat FieldNo) IsStruct]
         else if startswith Name ''$'' then
           (case getAsInteger (drop 1 Name) of
              Some Value \<Rightarrow>
                if unat Value < length TT
                then Results @ [getTupleElement (unat Value) IsStruct]
                else Results
            | None \<Rightarrow> Results)
         else Results)"

subsection \<open>MemberLookup::doIt\<close>

text \<open>The loop over the elements of a protocol: it returns at the first element of the name.\<close>

fun protocolElement :: "ValueDecl list \<Rightarrow> Identifier \<Rightarrow> MemberLookupResult option" where
  "protocolElement [] Name = None"
| "protocolElement (VD # VDs) Name =
     (if getName VD \<noteq> Name then protocolElement VDs Name
      else if declClass VD = FuncDecl True then Some (getIgnoreBase VD)
      else Some (getPassBase VD))"

text \<open>The body of the loop over the extension methods.\<close>

definition extensionMethod :: "ValueDecl \<Rightarrow> MemberLookupResult" where
  "extensionMethod VD =
     (if declClass VD = TypeDecl then getIgnoreBase VD
      else if declClass VD = FuncDecl True then getIgnoreBase VD
      else getPassBase VD)"

text \<open>The switch in the loop after the recursive call on a metatype.\<close>

fun resetThis :: "MemberLookupResult \<Rightarrow> MemberLookupResult" where
  "resetThis (getPassBase d) = getIgnoreBase d"
| "resetThis (getIgnoreBase d) = getIgnoreBase d"
| "resetThis (TupleElementResult i) = TupleElementResult i"
| "resetThis (StructElementResult i) = StructElementResult i"

definition AnyInvalid :: "MemberLookupResult list \<Rightarrow> bool" where
  "AnyInvalid Results =
     list_ex (\<lambda>R. Kind R = StructElement \<or> Kind R = TupleElement) Results"

definition lookThroughLValue :: "Type \<Rightarrow> Type" where
  "lookThroughLValue BaseTy = (case BaseTy of LValueType obj qs \<Rightarrow> obj | _ \<Rightarrow> BaseTy)"

text \<open>
  \<open>Results\<close> is the member that \<open>doIt\<close> appends to; the function takes it and returns
  it updated.
\<close>

function doIt ::
  "Type \<Rightarrow> Identifier \<Rightarrow> Module \<Rightarrow> MemberLookupResult list \<Rightarrow> MemberLookupResult list" where
  "doIt BaseTy0 Name M Results =
     (case lookThroughLValue BaseTy0 of
        MetaTypeType Ty \<Rightarrow>
          (let Results1 =
                 (case Ty of
                    OneOfType n elts tr \<Rightarrow>
                      (case getElement elts Name of
                         Some Elt \<Rightarrow> Results @ [getIgnoreBase Elt]
                       | None \<Rightarrow> Results)
                  | _ \<Rightarrow> Results);
               Results2 = doIt Ty Name M Results1;
               Results3 = map resetThis Results2
           in if AnyInvalid Results2
              then filter (\<lambda>R. \<not> (Kind R \<noteq> IgnoreBase)) Results3
              else Results3)
      | ModuleType lookupValue \<Rightarrow> Results @ map getIgnoreBase (lookupValue Name)
      | BaseTy \<Rightarrow>
          (case (case BaseTy of ProtocolType n elts \<Rightarrow> protocolElement elts Name
                 | _ \<Rightarrow> None) of
             Some R \<Rightarrow> Results @ [R]
           | None \<Rightarrow>
               (let Results1 =
                      (case BaseTy of
                         TupleType TT \<Rightarrow> doTuple TT Name False Results
                       | _ \<Rightarrow> Results);
                    Results2 =
                      (case BaseTy of
                         OneOfType n elts (Some (TupleType TT)) \<Rightarrow> doTuple TT Name True Results1
                       | _ \<Rightarrow> Results1)
                in Results2 @
                   map extensionMethod (lookupGlobalExtensionMethods M BaseTy Name))))"
  by pat_completeness auto
termination
proof (relation "measure (\<lambda>(T, Name, M, Rs). size T)")
  show "wf (measure (\<lambda>(T, Name, M, Rs). size T))" by simp
next
  fix BaseTy0 :: Type and Name :: Identifier and M :: Module
    and Results Results1 :: "MemberLookupResult list" and Ty :: Type
  assume "lookThroughLValue BaseTy0 = MetaTypeType Ty"
  then have "size Ty < size (lookThroughLValue BaseTy0)" by simp
  also have "\<dots> \<le> size BaseTy0"
    by (cases BaseTy0) (simp_all add: lookThroughLValue_def)
  finally show "((Ty, Name, M, Results1), (BaseTy0, Name, M, Results)) 
      \<in> measure (\<lambda>(T, Name, M, Rs). size T)" by simp
qed

declare doIt.simps [simp del]

text \<open>The constructor \<open>MemberLookup\<close>: the results of a lookup that starts with none.\<close>

definition MemberLookup :: "Type \<Rightarrow> Identifier \<Rightarrow> Module \<Rightarrow> MemberLookupResult list" where
  "MemberLookup BaseTy Name M = doIt BaseTy Name M []"

subsection \<open>Expressions\<close>

text \<open>A source location; \<open>isValid\<close> tells whether there is one.\<close>

type_synonym SourceLoc = "nat option"

definition isValid :: "SourceLoc \<Rightarrow> bool" where
  "isValid Loc = (Loc \<noteq> None)"

text \<open>
  The expressions whose type this file reads: the base expression that the caller hands
  in, which may be any expression and is known here by its type (the number stands for
  the identity of the node), and the node that \<open>lookThroughOneofs\<close> puts around it.
\<close>

datatype BaseExpr =
    OpaqueExpr nat Type
  | LookThroughOneofExpr BaseExpr Type

fun getType :: "BaseExpr \<Rightarrow> Type" where
  "getType (OpaqueExpr n T) = T"
| "getType (LookThroughOneofExpr E T) = T"

text \<open>
  \<open>DeclRefExpr D Loc\<close>: the reference to a declaration; its third argument in the source,
  \<open>D->getTypeOfReference()\<close>, is a function of \<open>D\<close>.
\<close>

datatype DeclRefExpr = DeclRefExpr ValueDecl SourceLoc

text \<open>
  The nodes that \<open>createResultAST\<close> returns, with the arguments of their constructors
  in the order of the source. The last argument of the two tuple element nodes is the
  type of the node.
\<close>

datatype Expr =
    SyntacticTupleElementExpr BaseExpr SourceLoc nat SourceLoc Type
  | ImplicitThisTupleElementExpr BaseExpr nat SourceLoc Type
  | DotSyntaxCallExpr DeclRefExpr SourceLoc BaseExpr
  | MemberRefExpr BaseExpr SourceLoc ValueDecl SourceLoc
  | DotSyntaxBaseIgnoredExpr BaseExpr SourceLoc DeclRefExpr
  | OverloadedMemberRefExpr BaseExpr SourceLoc "ValueDecl list" SourceLoc

text \<open>
  The fatal failures: the four \<open>assert\<close>s of this file, a \<open>cast\<close> or \<open>castTo\<close> to a
  class that the value does not have, and a tuple element beyond the fields.
\<close>

datatype error =
    NothingFound
  | NotTransparent
  | ElementInOverloadSet
  | BadCast
  | BadFieldIndex

subsection \<open>makeSimilarLValue, lookThroughOneofs, buildTupleElementExpr\<close>

definition makeSimilarLValue :: "Type \<Rightarrow> Type \<Rightarrow> error + Type" where
  "makeSimilarLValue objectType lvalueType =
     (case lvalueType of
        LValueType obj qs \<Rightarrow> Inr (LValueType objectType (qs \<union> {Implicit}))
      | _ \<Rightarrow> Inl BadCast)"

definition lookThroughOneofs :: "BaseExpr \<Rightarrow> error + BaseExpr" where
  "lookThroughOneofs E =
     (let IsLValue = (case getType E of LValueType obj qs \<Rightarrow> True | _ \<Rightarrow> False);
          BaseType = (case getType E of LValueType obj qs \<Rightarrow> obj | T \<Rightarrow> T)
      in case BaseType of
           OneOfType n elts tr \<Rightarrow>
             (case tr of
                None \<Rightarrow> Inl NotTransparent
              | Some ResultType \<Rightarrow>
                  if IsLValue
                  then (case makeSimilarLValue ResultType (getType E) of
                          Inl e \<Rightarrow> Inl e
                        | Inr ResultType' \<Rightarrow> Inr (LookThroughOneofExpr E ResultType'))
                  else Inr (LookThroughOneofExpr E ResultType))
         | _ \<Rightarrow> Inl BadCast)"

definition buildTupleElementExpr ::
  "BaseExpr \<Rightarrow> SourceLoc \<Rightarrow> SourceLoc \<Rightarrow> nat \<Rightarrow> error + Expr" where
  "buildTupleElementExpr Base DotLoc NameLoc FieldIndex =
     (let IsLValue = (case getType Base of LValueType obj qs \<Rightarrow> True | _ \<Rightarrow> False);
          BaseTy = (case getType Base of LValueType obj qs \<Rightarrow> obj | T \<Rightarrow> T)
      in case BaseTy of
           TupleType TT \<Rightarrow>
             if FieldIndex < length TT then
               (case (if IsLValue then makeSimilarLValue (snd (TT ! FieldIndex)) (getType Base)
                      else Inr (snd (TT ! FieldIndex))) of
                  Inl e \<Rightarrow> Inl e
                | Inr FieldType \<Rightarrow>
                    if isValid DotLoc
                    then Inr (SyntacticTupleElementExpr Base DotLoc FieldIndex NameLoc FieldType)
                    else Inr (ImplicitThisTupleElementExpr Base FieldIndex NameLoc FieldType))
             else Inl BadFieldIndex
         | _ \<Rightarrow> Inl BadCast)"

subsection \<open>MemberLookup::createResultAST\<close>

text \<open>
  Modelled from the spec: \<open>MemberLookup::isSuccess\<close> (NameLookup.h, not in this file):
  "an empty list signals no such member".
\<close>

definition isSuccess :: "MemberLookupResult list \<Rightarrow> bool" where
  "isSuccess Results = (Results \<noteq> [])"

text \<open>The loop that collects the declarations of an ambiguous result.\<close>

fun overloadSet :: "MemberLookupResult list \<Rightarrow> ValueDecl list \<Rightarrow> error + ValueDecl list" where
  "overloadSet [] ResultSet = Inr ResultSet"
| "overloadSet (getPassBase D # Xs) ResultSet = overloadSet Xs (ResultSet @ [D])"
| "overloadSet (getIgnoreBase D # Xs) ResultSet = overloadSet Xs (ResultSet @ [D])"
| "overloadSet (TupleElementResult i # Xs) ResultSet = Inl ElementInOverloadSet"
| "overloadSet (StructElementResult i # Xs) ResultSet = Inl ElementInOverloadSet"

definition createResultAST ::
  "MemberLookupResult list \<Rightarrow> BaseExpr \<Rightarrow> SourceLoc \<Rightarrow> SourceLoc \<Rightarrow> error + Expr" where
  "createResultAST Results Base DotLoc NameLoc =
     (if \<not> isSuccess Results then Inl NothingFound
      else if length Results = 1 then
        (case Results ! 0 of
           StructElementResult TupleFieldNo \<Rightarrow>
             (case lookThroughOneofs Base of
                Inl e \<Rightarrow> Inl e
              | Inr Base' \<Rightarrow> buildTupleElementExpr Base' DotLoc NameLoc TupleFieldNo)
         | TupleElementResult TupleFieldNo \<Rightarrow>
             buildTupleElementExpr Base DotLoc NameLoc TupleFieldNo
         | getPassBase D \<Rightarrow>
             (case declClass D of
                FuncDecl static \<Rightarrow> Inr (DotSyntaxCallExpr (DeclRefExpr D NameLoc) DotLoc Base)
              | VarDecl \<Rightarrow> Inr (MemberRefExpr Base DotLoc D NameLoc)
              | _ \<Rightarrow> Inl BadCast)
         | getIgnoreBase D \<Rightarrow>
             Inr (DotSyntaxBaseIgnoredExpr Base DotLoc (DeclRefExpr D NameLoc)))
      else
        (case overloadSet Results [] of
           Inl e \<Rightarrow> Inl e
         | Inr ResultSet \<Rightarrow> Inr (OverloadedMemberRefExpr Base DotLoc ResultSet NameLoc)))"

subsection \<open>The specification's reading of a positional name\<close>

text \<open>
  The words of the specification for a name \<open>$<digits>\<close>: a dollar sign, then one
  decimal digit or more, read in base 10 (no bound on the value).
\<close>

definition isDigit :: "char \<Rightarrow> bool" where
  "isDigit c = (48 \<le> (of_char c :: nat) \<and> (of_char c :: nat) \<le> 57)"

definition decimalValue :: "string \<Rightarrow> nat" where
  "decimalValue ds = foldl (\<lambda>a c. a * 10 + ((of_char c :: nat) - 48)) 0 ds"

definition dollarDigits :: "Identifier \<Rightarrow> bool" where
  "dollarDigits Name =
     (case Name of [] \<Rightarrow> False
      | c # ds \<Rightarrow> c = CHR ''$'' \<and> ds \<noteq> [] \<and> list_all isDigit ds)"


subsection \<open>Names for the parts of a lookup\<close>

text \<open>
  What the specification says of a candidate under a metatype: a \<open>PassBase\<close> result is
  rewritten to \<open>IgnoreBase\<close>, a tuple or struct element is dropped.
\<close>

fun withoutBase :: "MemberLookupResult \<Rightarrow> MemberLookupResult list" where
  "withoutBase (getPassBase d) = [getIgnoreBase d]"
| "withoutBase (getIgnoreBase d) = [getIgnoreBase d]"
| "withoutBase (TupleElementResult i) = []"
| "withoutBase (StructElementResult i) = []"

text \<open>The results that \<open>doIt\<close> adds for a metatype before it calls itself.\<close>

definition oneofElement :: "Type \<Rightarrow> Identifier \<Rightarrow> MemberLookupResult list" where
  "oneofElement Ty Name =
     (case Ty of
        OneOfType n elts tr \<Rightarrow>
          (case getElement elts Name of Some Elt \<Rightarrow> [getIgnoreBase Elt] | None \<Rightarrow> [])
      | _ \<Rightarrow> [])"

text \<open>
  The results of the two calls of \<open>doTuple\<close> in \<open>doIt\<close>: for a tuple type, and for a
  oneof whose transparent type is a tuple type.
\<close>

definition fieldCandidates :: "Type \<Rightarrow> Identifier \<Rightarrow> MemberLookupResult list" where
  "fieldCandidates BaseTy Name =
     (case BaseTy of
        TupleType TT \<Rightarrow> doTuple TT Name False []
      | OneOfType n elts (Some (TupleType TT)) \<Rightarrow> doTuple TT Name True []
      | _ \<Rightarrow> [])"

text \<open>The result of the loop over the elements of a protocol; none for another type.\<close>

definition protocolMember :: "Type \<Rightarrow> Identifier \<Rightarrow> MemberLookupResult option" where
  "protocolMember BaseTy Name =
     (case BaseTy of ProtocolType n elts \<Rightarrow> protocolElement elts Name | _ \<Rightarrow> None)"

definition isFieldResult :: "MemberLookupResult \<Rightarrow> bool" where
  "isFieldResult R = (Kind R = TupleElement \<or> Kind R = StructElement)"

text \<open>The declarations of the results that have one, in the order of the results.\<close>

definition declsOf :: "MemberLookupResult list \<Rightarrow> ValueDecl list" where
  "declsOf Results =
     concat (map (\<lambda>X. case X of getPassBase D \<Rightarrow> [D] | getIgnoreBase D \<Rightarrow> [D] | _ \<Rightarrow> []) Results)"

subsection \<open>Example inputs\<close>

text \<open>
  A struct \<open>S\<close> with the field \<open>x\<close>, and a module with an extension of \<open>S\<close> that
  declares a method \<open>x\<close>.
\<close>

definition example_x :: ValueDecl where
  "example_x = \<lparr>declId = 1, getName = ''x'', declClass = FuncDecl False\<rparr>"

definition example_S :: Type where
  "example_S =
     OneOfType ''S'' [\<lparr>declId = 0, getName = ''S'', declClass = OneOfElementDecl\<rparr>]
       (Some (TupleType [(''x'', OtherType ''Int'')]))"

definition example_M :: Module where
  "example_M =
     \<lparr>lookupGlobalExtensionMethods =
        (\<lambda>T N. case T of
                  OneOfType n elts tr \<Rightarrow> if n = ''S'' \<and> N = ''x'' then [example_x] else []
                | _ \<Rightarrow> [])\<rparr>"

text \<open>
  A protocol \<open>P\<close> with a variable \<open>g\<close>, a static and a plain function \<open>f\<close>, and a module
  whose extensions of \<open>P\<close> declare \<open>f\<close> once and \<open>h\<close> twice.
\<close>

definition example_f :: "nat \<Rightarrow> bool \<Rightarrow> ValueDecl" where
  "example_f n static = \<lparr>declId = n, getName = ''f'', declClass = FuncDecl static\<rparr>"

definition example_P :: Type where
  "example_P =
     ProtocolType ''P''
       [\<lparr>declId = 0, getName = ''g'', declClass = VarDecl\<rparr>, example_f 1 True, example_f 2 False]"

definition example_MP :: Module where
  "example_MP =
     \<lparr>lookupGlobalExtensionMethods =
        (\<lambda>T N. case T of
                  ProtocolType n elts \<Rightarrow>
                    if n = ''P'' \<and> N = ''f'' then [example_f 3 False]
                    else if n = ''P'' \<and> N = ''h'' then [example_f 4 False, example_f 4 False]
                    else []
                | _ \<Rightarrow> [])\<rparr>"

text \<open>
  A tuple type with the field \<open>x\<close> and a module with an extension method \<open>x\<close> on tuple
  types; a oneof \<open>E\<close> with the elements \<open>A\<close> and \<open>B\<close> and a module with an extension
  method \<open>A\<close> on oneofs.
\<close>

definition example_T :: Type where
  "example_T = TupleType [(''x'', OtherType ''Int'')]"

definition example_MT :: Module where
  "example_MT =
     \<lparr>lookupGlobalExtensionMethods =
        (\<lambda>T N. case T of TupleType TT \<Rightarrow> if N = ''x'' then [example_x] else [] | _ \<Rightarrow> [])\<rparr>"

definition example_E :: Type where
  "example_E =
     OneOfType ''E''
       [\<lparr>declId = 5, getName = ''A'', declClass = OneOfElementDecl\<rparr>,
        \<lparr>declId = 6, getName = ''B'', declClass = OneOfElementDecl\<rparr>] None"

definition example_ME :: Module where
  "example_ME =
     \<lparr>lookupGlobalExtensionMethods =
        (\<lambda>T N. case T of
                  OneOfType n elts tr \<Rightarrow>
                    if N = ''A'' then [\<lparr>declId = 7, getName = ''A'', declClass = FuncDecl False\<rparr>]
                    else []
                | _ \<Rightarrow> [])\<rparr>"

section \<open>Field resolution\<close>

lemma getNamedElementId_range:
  "- 1 \<le> getNamedElementId TT I \<and> getNamedElementId TT I < int (length TT)"
  by (induction TT) (auto simp: Let_def)

lemma getNamedElementId_none: "getNamedElementId TT I = - 1 \<longleftrightarrow> I \<notin> fst ` set TT"
proof (induction TT)
  case Nil
  show ?case by simp
next
  case (Cons f fs)
  have "- 1 \<le> getNamedElementId fs I" using getNamedElementId_range by blast
  with Cons show ?case by (auto simp: Let_def)
qed

lemma getNamedElementId_some:
  "getNamedElementId TT I \<noteq> - 1 \<Longrightarrow>
     nat (getNamedElementId TT I) < length TT \<and>
     fst (TT ! nat (getNamedElementId TT I)) = I \<and>
     (\<forall>j < nat (getNamedElementId TT I). fst (TT ! j) \<noteq> I)"
proof (induction TT)
  case Nil
  then show ?case by simp
next
  case (Cons f fs)
  show ?case
  proof (cases "fst f = I")
    case True
    then show ?thesis by simp
  next
    case False
    with Cons.prems have ne: "getNamedElementId fs I \<noteq> - 1"
      by (simp add: Let_def split: if_splits)
    have ge: "0 \<le> getNamedElementId fs I"
      using getNamedElementId_range [of fs I] ne by linarith
    from ne False have eq: "getNamedElementId (f # fs) I = getNamedElementId fs I + 1"
      by (simp add: Let_def)
    from ge have n: "nat (getNamedElementId fs I + 1) = Suc (nat (getNamedElementId fs I))"
      by simp
    from Cons.IH [OF ne] False show ?thesis
      unfolding eq n by (auto simp: nth_Cons split: nat.splits)
  qed
qed

lemma parseDigits_foldl:
  "parseDigits ds acc =
     (if list_all isDigit ds
      then Some (foldl (\<lambda>a c. a * 10 + ((of_char c :: nat) - 48)) acc ds) else None)"
  by (induction ds arbitrary: acc) (simp_all add: isDigit_def Let_def)

lemma getAsInteger_decimal:
  "getAsInteger ds =
     (if ds \<noteq> [] \<and> list_all isDigit ds \<and> decimalValue ds < 2 ^ 32
      then Some (word_of_nat (decimalValue ds)) else None)"
  by (simp add: getAsInteger_def parseDigits_foldl decimalValue_def)

lemma unat_word_of_nat_32: "n < 2 ^ 32 \<Longrightarrow> unat (word_of_nat n :: 32 word) = n"
  by (simp add: unat_of_nat take_bit_nat_eq_self)

lemma startswith_dollar: "startswith Name ''$'' \<longleftrightarrow> (\<exists>ds. Name = CHR ''$'' # ds)"
  by (cases Name) (auto simp: startswith_def)

lemma doTuple_positional:
  "getNamedElementId TT Name = - 1 \<Longrightarrow>
   doTuple TT Name IsStruct Results =
     Results @
       (if dollarDigits Name \<and> decimalValue (drop 1 Name) < 2 ^ 32 \<and>
           decimalValue (drop 1 Name) < length TT
        then [getTupleElement (decimalValue (drop 1 Name)) IsStruct] else [])"
  by (cases Name)
    (auto simp: doTuple_def startswith_def getAsInteger_decimal dollarDigits_def
      unat_word_of_nat_32)


text \<open>
  C5. \<open>doTuple\<close> first looks for a field whose declared name is the given name and
  produces the candidate of its index (the first such field). Without such a field, a
  name \<open>$<digits>\<close> produces the candidate of the number the digits denote exactly
  when parsing succeeds (the digits are well formed and the number fits the 32-bit
  \<open>unsigned\<close>) and the number is less than the field count; every other name produces
  no candidate.
\<close>

theorem doTuple_field_resolution:
  "(Name \<in> fst ` set TT \<longrightarrow>
      (\<exists>i < length TT. fst (TT ! i) = Name \<and> (\<forall>j < i. fst (TT ! j) \<noteq> Name) \<and>
         doTuple TT Name IsStruct Results = Results @ [getTupleElement i IsStruct])) \<and>
   (Name \<notin> fst ` set TT \<longrightarrow>
      doTuple TT Name IsStruct Results =
        Results @
          (if dollarDigits Name \<and> decimalValue (drop 1 Name) < 2 ^ 32 \<and>
              decimalValue (drop 1 Name) < length TT
           then [getTupleElement (decimalValue (drop 1 Name)) IsStruct] else []))"
proof (intro conjI impI)
  assume "Name \<in> fst ` set TT"
  then have ne: "getNamedElementId TT Name \<noteq> - 1" by (simp add: getNamedElementId_none)
  let ?i = "nat (getNamedElementId TT Name)"
  have "doTuple TT Name IsStruct Results = Results @ [getTupleElement ?i IsStruct]"
    using ne by (simp add: doTuple_def)
  with getNamedElementId_some [OF ne]
  show "\<exists>i < length TT. fst (TT ! i) = Name \<and> (\<forall>j < i. fst (TT ! j) \<noteq> Name) \<and>
         doTuple TT Name IsStruct Results = Results @ [getTupleElement i IsStruct]"
    by blast
next
  assume "Name \<notin> fst ` set TT"
  then have "getNamedElementId TT Name = - 1" by (simp add: getNamedElementId_none)
  then show "doTuple TT Name IsStruct Results =
        Results @
          (if dollarDigits Name \<and> decimalValue (drop 1 Name) < 2 ^ 32 \<and>
              decimalValue (drop 1 Name) < length TT
           then [getTupleElement (decimalValue (drop 1 Name)) IsStruct] else [])"
    by (rule doTuple_positional)
qed


theorem doTuple_field_resolution_witness:
  "doTuple [(''a'', OtherType ''Int''), (''b'', OtherType ''Int''), (''x'', OtherType ''Int'')]
     ''$2'' False [] = [TupleElementResult 2] \<and>
   doTuple [(''a'', OtherType ''Int''), (''b'', OtherType ''Int''), (''x'', OtherType ''Int'')]
     ''$9'' False [] = [] \<and>
   doTuple [(''a'', OtherType ''Int''), (''b'', OtherType ''Int''), (''x'', OtherType ''Int'')]
     ''$abc'' False [] = [] \<and>
   (\<exists>i. doTuple [(''a'', OtherType ''Int''), (''b'', OtherType ''Int''), (''x'', OtherType ''Int'')]
     ''x'' True [] = [StructElementResult i])"
proof -
  let ?TT = "[(''a'', OtherType ''Int''), (''b'', OtherType ''Int''), (''x'', OtherType ''Int'')]"
  have "doTuple ?TT ''$2'' False [] = [TupleElementResult 2]"
    using doTuple_field_resolution [of "''$2''" ?TT False "[]"]
    by (simp add: dollarDigits_def isDigit_def decimalValue_def getTupleElement_def)
  moreover have "doTuple ?TT ''$9'' False [] = []"
    using doTuple_field_resolution [of "''$9''" ?TT False "[]"]
    by (simp add: dollarDigits_def isDigit_def decimalValue_def getTupleElement_def)
  moreover have "doTuple ?TT ''$abc'' False [] = []"
    using doTuple_field_resolution [of "''$abc''" ?TT False "[]"]
    by (simp add: dollarDigits_def isDigit_def decimalValue_def getTupleElement_def)
  moreover have "\<exists>i. doTuple ?TT ''x'' True [] = [StructElementResult i]"
    using doTuple_field_resolution [of "''x''" ?TT True "[]"]
    by (auto simp: getTupleElement_def)
  ultimately show ?thesis by blast
qed

text \<open>
  C9. The claim, that a name \<open>$<digits>\<close> whose digits are well formed but denote a
  number beyond the 32-bit \<open>unsigned\<close> never produces a candidate, fails for a tuple
  with a field declared under that very name: \<open>doTuple\<close> looks for the field by name
  before it reads the digits.
\<close>

theorem doTuple_overflow_named_field_counterexample:
  "dollarDigits ''$4294967298'' \<and> 2 ^ 32 \<le> decimalValue ''4294967298'' \<and>
   doTuple [(''$4294967298'', OtherType ''Int'')] ''$4294967298'' False [] =
     [TupleElementResult 0]"
  by (simp add: dollarDigits_def isDigit_def decimalValue_def doTuple_def getTupleElement_def)

text \<open>
  C9, amended. For a name \<open>$<digits>\<close> under which no field of the tuple is declared: when
  the digits are well formed but denote a number that the 32-bit \<open>unsigned\<close> cannot
  hold, \<open>doTuple\<close> produces no candidate, as it does for a malformed digit string; the
  number is never reduced modulo \<open>2 ^ 32\<close> to a valid index.
\<close>

theorem doTuple_overflow_no_candidate:
  assumes "CHR ''$'' # ds \<notin> fst ` set TT"
    and "(ds \<noteq> [] \<and> list_all isDigit ds \<and> 2 ^ 32 \<le> decimalValue ds) \<or>
         ds = [] \<or> \<not> list_all isDigit ds"
  shows "doTuple TT (CHR ''$'' # ds) IsStruct Results = Results"
proof -
  from assms(1) have "getNamedElementId TT (CHR ''$'' # ds) = - 1"
    by (simp add: getNamedElementId_none)
  with assms(2) show ?thesis
    by (auto simp: doTuple_positional dollarDigits_def)
qed

theorem doTuple_overflow_no_candidate_witness:
  "decimalValue ''4294967298'' mod 2 ^ 32 = 2 \<and>
   doTuple [(''a'', OtherType ''Int''), (''b'', OtherType ''Int''), (''x'', OtherType ''Int'')]
     ''$4294967298'' False [] = [] \<and>
   doTuple [(''a'', OtherType ''Int''), (''b'', OtherType ''Int''), (''x'', OtherType ''Int'')]
     ''$2x'' False [] = []"
proof -
  let ?TT = "[(''a'', OtherType ''Int''), (''b'', OtherType ''Int''), (''x'', OtherType ''Int'')]"
  have "decimalValue ''4294967298'' mod 2 ^ 32 = 2"
    by (simp add: decimalValue_def)
  moreover have "doTuple ?TT ''$4294967298'' False [] = []"
    using doTuple_overflow_no_candidate
      [where TT = ?TT and ds = "''4294967298''" and IsStruct = False and Results = "[]"]
    by (simp add: isDigit_def decimalValue_def)
  moreover have "doTuple ?TT ''$2x'' False [] = []"
    using doTuple_overflow_no_candidate
      [where TT = ?TT and ds = "''2x''" and IsStruct = False and Results = "[]"]
    by (simp add: isDigit_def)
  ultimately show ?thesis by blast
qed

section \<open>Dispatch on the shape of the base type\<close>

lemma filter_resetThis:
  "filter (\<lambda>R. Kind R = IgnoreBase) (map resetThis Rs) = concat (map withoutBase Rs)"
proof (induction Rs)
  case Nil
  show ?case by simp
next
  case (Cons R Rs)
  then show ?case by (cases R) simp_all
qed

lemma map_resetThis_valid:
  "\<not> AnyInvalid Rs \<Longrightarrow> map resetThis Rs = concat (map withoutBase Rs)"
proof (induction Rs)
  case Nil
  show ?case by simp
next
  case (Cons R Rs)
  then show ?case by (cases R) (simp_all add: AnyInvalid_def)
qed

lemma doIt_MetaTypeType:
  assumes "lookThroughLValue BaseTy = MetaTypeType Ty"
  shows "doIt BaseTy Name M Results =
           concat (map withoutBase (doIt Ty Name M (Results @ oneofElement Ty Name)))"
proof -
  have r1: "(case Ty of
               OneOfType n elts tr \<Rightarrow>
                 (case getElement elts Name of
                    Some Elt \<Rightarrow> Results @ [getIgnoreBase Elt]
                  | None \<Rightarrow> Results)
             | _ \<Rightarrow> Results) = Results @ oneofElement Ty Name"
    by (simp add: oneofElement_def split: Type.split option.split)
  show ?thesis
    by (subst doIt.simps)
      (simp add: assms r1 Let_def filter_resetThis map_resetThis_valid)
qed

lemma doIt_ModuleType:
  assumes "lookThroughLValue BaseTy = ModuleType lookupValue"
  shows "doIt BaseTy Name M Results = Results @ map getIgnoreBase (lookupValue Name)"
  by (subst doIt.simps) (simp add: assms)


lemma doTuple_append:
  "doTuple TT Name IsStruct Results = Results @ doTuple TT Name IsStruct []"
  by (simp add: doTuple_def Let_def split: option.split)

lemma doIt_instance:
  assumes "lookThroughLValue BaseTy0 = BaseTy"
    and "\<And>Ty. BaseTy \<noteq> MetaTypeType Ty" and "\<And>lv. BaseTy \<noteq> ModuleType lv"
  shows "doIt BaseTy0 Name M Results =
           (case protocolMember BaseTy Name of
              Some R \<Rightarrow> Results @ [R]
            | None \<Rightarrow>
                Results @ fieldCandidates BaseTy Name @
                map extensionMethod (lookupGlobalExtensionMethods M BaseTy Name))"
proof (cases BaseTy)
  case (LValueType obj qs)
  with assms(1) show ?thesis
    by (subst doIt.simps) (simp add: protocolMember_def fieldCandidates_def)
next
  case (MetaTypeType Ty)
  with assms(2) [of Ty] show ?thesis by simp
next
  case (ModuleType lv)
  with assms(3) [of lv] show ?thesis by simp
next
  case (ProtocolType n elts)
  with assms(1) show ?thesis
    by (subst doIt.simps)
      (simp add: protocolMember_def fieldCandidates_def split: option.split)
next
  case (TupleType TT)
  with assms(1) show ?thesis
    by (subst doIt.simps)
      (simp add: protocolMember_def fieldCandidates_def doTuple_append [of TT Name False Results]
       )
next
  case (OneOfType n elts tr)
  show ?thesis
  proof (cases tr)
    case None
    with OneOfType assms(1) show ?thesis
      by (subst doIt.simps) (simp add: protocolMember_def fieldCandidates_def)
  next
    case (Some t)
    with OneOfType assms(1) show ?thesis
      by (subst doIt.simps)
        (simp add: protocolMember_def fieldCandidates_def doTuple_append [of _ Name True Results]
          split: Type.split)
  qed
next
  case (OtherType n)
  with assms(1) show ?thesis
    by (subst doIt.simps) (simp add: protocolMember_def fieldCandidates_def)
qed


lemma protocolElement_find:
  "protocolElement elts Name =
     map_option (\<lambda>VD. if declClass VD = FuncDecl True then getIgnoreBase VD else getPassBase VD)
       (find (\<lambda>VD. getName VD = Name) elts)"
  by (induction elts) simp_all



lemma isFieldResult_doTuple: "list_all isFieldResult (doTuple TT Name IsStruct [])"
  by (simp add: doTuple_def Let_def getTupleElement_def isFieldResult_def split: option.split)

lemma isFieldResult_fieldCandidates: "list_all isFieldResult (fieldCandidates BaseTy Name)"
  by (simp add: fieldCandidates_def isFieldResult_doTuple split: Type.split option.split)

lemma not_isFieldResult_extensionMethod: "\<not> isFieldResult (extensionMethod VD)"
  by (simp add: extensionMethod_def isFieldResult_def)

lemma not_isFieldResult_protocolElement:
  "protocolElement elts Name = Some R \<Longrightarrow> \<not> isFieldResult R"
  by (induction elts) (auto simp: isFieldResult_def split: if_splits)

lemma doIt_example_T:
  "doIt example_T ''x'' example_MT [] = [TupleElementResult 0, getPassBase example_x]"
  by (subst doIt.simps)
    (simp add: lookThroughLValue_def example_T_def example_MT_def doTuple_def
      getTupleElement_def extensionMethod_def example_x_def)

lemma overloadSet_decls:
  "overloadSet Xs ResultSet =
     (if list_ex isFieldResult Xs then Inl ElementInOverloadSet
      else Inr (ResultSet @ declsOf Xs))"
  by (induction Xs ResultSet rule: overloadSet.induct)
    (simp_all add: isFieldResult_def declsOf_def)

text \<open>
  C1. The claim: the list that the lookup returns never holds a tuple or struct element
  together with another result. The code does not keep to it: for the struct \<open>S\<close> with
  the field \<open>x\<close> and an extension method \<open>x\<close>, the lookup of \<open>x\<close> returns the struct
  element and the method, and \<open>createResultAST\<close> on that list runs into its own
  assertion that an ambiguous result holds no element.
\<close>

theorem doIt_field_and_extension:
  "MemberLookup example_S ''x'' example_M = [StructElementResult 0, getPassBase example_x] \<and>
   createResultAST (MemberLookup example_S ''x'' example_M) (OpaqueExpr 0 example_S) (Some 1) (Some 2)
     = Inl ElementInOverloadSet"
proof -
  have "lookThroughLValue example_S = example_S"
    by (simp add: lookThroughLValue_def example_S_def)
  then have 1: "MemberLookup example_S ''x'' example_M =
      [StructElementResult 0, getPassBase example_x]"
    unfolding MemberLookup_def
    by (subst doIt.simps)
      (simp add: example_S_def example_M_def doTuple_def getTupleElement_def
        extensionMethod_def example_x_def)
  show ?thesis
    unfolding 1 by (simp add: createResultAST_def isSuccess_def)
qed


text \<open>
  C2. The claim, that a name found both among the members of a protocol and in an
  extension yields two candidates, fails: for the protocol \<open>P\<close> with a member \<open>f\<close>
  and an extension that declares \<open>f\<close>, the lookup of \<open>f\<close> returns the member of the
  protocol alone.
\<close>

theorem doIt_protocol_and_extension_counterexample:
  "lookupGlobalExtensionMethods example_MP example_P ''f'' = [example_f 3 False] \<and>
   MemberLookup example_P ''f'' example_MP = [getIgnoreBase (example_f 1 True)] \<and>
   length (MemberLookup example_P ''f'' example_MP) \<noteq> 2"
proof -
  have "MemberLookup example_P ''f'' example_MP = [getIgnoreBase (example_f 1 True)]"
    unfolding MemberLookup_def
    by (subst doIt.simps) (simp add: lookThroughLValue_def example_P_def example_f_def)
  then show ?thesis by (simp add: example_MP_def example_P_def)
qed

text \<open>
  C2, amended. For a base type that is a protocol (under an l-value type or not) with
  an element of the name, the lookup returns exactly one candidate, which is for an
  element of the protocol of that name; extensions are not consulted. When no
  element has the name, every declaration that the extension lookup delivers yields a
  candidate, in its order and with duplicates kept.
\<close>

theorem doIt_protocol_member_hides_extensions:
  assumes "lookThroughLValue BaseTy = ProtocolType n elts"
  shows "(Name \<in> getName ` set elts \<longrightarrow>
            (\<exists>VD \<in> set elts. getName VD = Name \<and>
               (MemberLookup BaseTy Name M = [getPassBase VD] \<or>
                MemberLookup BaseTy Name M = [getIgnoreBase VD]))) \<and>
         (Name \<notin> getName ` set elts \<longrightarrow>
            MemberLookup BaseTy Name M =
              map extensionMethod (lookupGlobalExtensionMethods M (ProtocolType n elts) Name))"
proof (intro conjI impI)
  assume "Name \<in> getName ` set elts"
  then obtain VD where VD: "find (\<lambda>VD. getName VD = Name) elts = Some VD"
    by (cases "find (\<lambda>VD. getName VD = Name) elts") (auto simp: find_None_iff)
  then have "VD \<in> set elts" and "getName VD = Name"
    by (auto simp: find_Some_iff)
  moreover have "MemberLookup BaseTy Name M =
      [if declClass VD = FuncDecl True then getIgnoreBase VD else getPassBase VD]"
    using doIt_instance [OF assms, of Name M "[]"] VD
    by (simp add: MemberLookup_def protocolMember_def protocolElement_find)
  ultimately show "\<exists>VD \<in> set elts. getName VD = Name \<and>
      (MemberLookup BaseTy Name M = [getPassBase VD] \<or>
       MemberLookup BaseTy Name M = [getIgnoreBase VD])"
    by (cases "declClass VD = FuncDecl True") auto
next
  assume "Name \<notin> getName ` set elts"
  then have "find (\<lambda>VD. getName VD = Name) elts = None"
    by (auto simp: find_None_iff)
  then show "MemberLookup BaseTy Name M =
      map extensionMethod (lookupGlobalExtensionMethods M (ProtocolType n elts) Name)"
    using doIt_instance [OF assms, of Name M "[]"]
    by (simp add: MemberLookup_def protocolMember_def protocolElement_find fieldCandidates_def)
qed

theorem doIt_protocol_member_hides_extensions_witness:
  "length (MemberLookup (LValueType example_P {}) ''f'' example_MP) = 1 \<and>
   MemberLookup example_P ''h'' example_MP =
     [getPassBase (example_f 4 False), getPassBase (example_f 4 False)]"
proof -
  have P: "lookThroughLValue (LValueType example_P {}) = ProtocolType ''P''
       [\<lparr>declId = 0, getName = ''g'', declClass = VarDecl\<rparr>, example_f 1 True, example_f 2 False]"
    "lookThroughLValue example_P = ProtocolType ''P''
       [\<lparr>declId = 0, getName = ''g'', declClass = VarDecl\<rparr>, example_f 1 True, example_f 2 False]"
    by (simp_all add: lookThroughLValue_def example_P_def)
  have "length (MemberLookup (LValueType example_P {}) ''f'' example_MP) = 1"
    using doIt_protocol_member_hides_extensions [OF P(1), of "''f''" example_MP]
    by (auto simp: example_f_def)
  moreover have "MemberLookup example_P ''h'' example_MP =
     [getPassBase (example_f 4 False), getPassBase (example_f 4 False)]"
    using doIt_protocol_member_hides_extensions [OF P(2), of "''h''" example_MP]
    by (simp add: example_f_def example_MP_def extensionMethod_def)
  ultimately show ?thesis by blast
qed

text \<open>
  C3. For a protocol, \<open>doIt\<close> goes through the elements in their order and stops at
  the first one of the name: it appends one \<open>IgnoreBase\<close> result when that is a static
  function, one \<open>PassBase\<close> result otherwise, and nothing of the extensions. When
  no element has the name, the lookup goes on: a protocol is neither a tuple nor a
  oneof, so the results of the extension lookup are what it appends.
\<close>

theorem doIt_protocol_first_match:
  assumes "lookThroughLValue BaseTy = ProtocolType n elts"
  shows "doIt BaseTy Name M Results =
           (case find (\<lambda>VD. getName VD = Name) elts of
              Some VD \<Rightarrow>
                Results @
                  [if declClass VD = FuncDecl True then getIgnoreBase VD else getPassBase VD]
            | None \<Rightarrow>
                Results @
                  map extensionMethod
                    (lookupGlobalExtensionMethods M (ProtocolType n elts) Name))"
  using doIt_instance [OF assms, of Name M Results]
  by (simp add: protocolMember_def protocolElement_find fieldCandidates_def
      split: option.split)

theorem doIt_protocol_first_match_witness:
  "MemberLookup example_P ''f'' example_MP = [getIgnoreBase (example_f 1 True)] \<and>
   MemberLookup example_P ''g'' example_MP =
     [getPassBase \<lparr>declId = 0, getName = ''g'', declClass = VarDecl\<rparr>] \<and>
   MemberLookup example_P ''h'' example_MP =
     [getPassBase (example_f 4 False), getPassBase (example_f 4 False)]"
proof -
  have P: "lookThroughLValue example_P = ProtocolType ''P''
       [\<lparr>declId = 0, getName = ''g'', declClass = VarDecl\<rparr>, example_f 1 True, example_f 2 False]"
    by (simp add: lookThroughLValue_def example_P_def)
  have "MemberLookup example_P ''f'' example_MP = [getIgnoreBase (example_f 1 True)]"
    unfolding MemberLookup_def
    using doIt_protocol_first_match [OF P, of "''f''" example_MP "[]"]
    by (simp add: example_f_def)
  moreover have "MemberLookup example_P ''g'' example_MP =
     [getPassBase \<lparr>declId = 0, getName = ''g'', declClass = VarDecl\<rparr>]"
    unfolding MemberLookup_def
    using doIt_protocol_first_match [OF P, of "''g''" example_MP "[]"]
    by (simp add: example_f_def)
  moreover have "MemberLookup example_P ''h'' example_MP =
     [getPassBase (example_f 4 False), getPassBase (example_f 4 False)]"
    unfolding MemberLookup_def
    using doIt_protocol_first_match [OF P, of "''h''" example_MP "[]"]
    by (simp add: example_f_def example_MP_def extensionMethod_def)
  ultimately show ?thesis by blast
qed


text \<open>
  C4. For a metatype, the results are those of \<open>doIt\<close> on the declared type (after
  the element of a oneof, if the name is one) with every \<open>PassBase\<close> result rewritten to
  \<open>IgnoreBase\<close> and every tuple or struct element dropped; so all of them are
  \<open>IgnoreBase\<close>, and a lookup on the declared type that gives one \<open>PassBase\<close> result
  and one tuple element ends as the one \<open>IgnoreBase\<close> result.
\<close>

theorem doIt_metatype_resets_base:
  assumes "lookThroughLValue BaseTy = MetaTypeType Ty"
  shows "doIt BaseTy Name M Results =
           concat (map withoutBase (doIt Ty Name M (Results @ oneofElement Ty Name))) \<and>
         list_all (\<lambda>R. Kind R = IgnoreBase) (doIt BaseTy Name M Results) \<and>
         (set (doIt Ty Name M (Results @ oneofElement Ty Name)) =
            {getPassBase d, TupleElementResult i} \<and>
          length (doIt Ty Name M (Results @ oneofElement Ty Name)) = 2 \<longrightarrow>
          doIt BaseTy Name M Results = [getIgnoreBase d])"
proof (intro conjI impI)
  show eq: "doIt BaseTy Name M Results =
      concat (map withoutBase (doIt Ty Name M (Results @ oneofElement Ty Name)))"
    by (rule doIt_MetaTypeType [OF assms])
  have "list_all (\<lambda>R. Kind R = IgnoreBase) (concat (map withoutBase Rs))" for Rs
  proof (induction Rs)
    case Nil
    show ?case by simp
  next
    case (Cons R Rs)
    then show ?case by (cases R) simp_all
  qed
  then show "list_all (\<lambda>R. Kind R = IgnoreBase) (doIt BaseTy Name M Results)"
    by (simp only: eq)
next
  let ?Rs = "doIt Ty Name M (Results @ oneofElement Ty Name)"
  assume a: "set ?Rs = {getPassBase d, TupleElementResult i} \<and> length ?Rs = 2"
  then obtain a b where ab: "?Rs = [a, b]"
    by (cases ?Rs; cases "tl ?Rs") auto
  with a have "?Rs = [getPassBase d, TupleElementResult i] \<or>
      ?Rs = [TupleElementResult i, getPassBase d]"
    by (auto simp: doubleton_eq_iff)
  then show "doIt BaseTy Name M Results = [getIgnoreBase d]"
    by (auto simp: doIt_MetaTypeType [OF assms])
qed

theorem doIt_metatype_resets_base_witness:
  "doIt example_T ''x'' example_MT [] = [TupleElementResult 0, getPassBase example_x] \<and>
   MemberLookup (MetaTypeType example_T) ''x'' example_MT = [getIgnoreBase example_x]"
proof -
  have m: "lookThroughLValue (MetaTypeType example_T) = MetaTypeType example_T"
    by (simp add: lookThroughLValue_def)
  have o: "oneofElement example_T ''x'' = []"
    by (simp add: oneofElement_def example_T_def)
  show ?thesis
    unfolding MemberLookup_def
    using doIt_metatype_resets_base [OF m, of "''x''" example_MT "[]" example_x 0]
    by (simp add: o doIt_example_T)
qed



text \<open>
  C10. The results keep the order of discovery. For a base type that is no metatype,
  the tuple and struct elements come before every other result; where the lookup
  reaches the extensions, the results are those of \<open>doTuple\<close> followed by those of the
  extension methods. For a metatype of a oneof with an element of the name, the
  result for the element comes first, before the results of the lookup on the oneof
  itself.
\<close>

theorem doIt_discovery_order:
  "(lookThroughLValue BaseTy0 = BaseTy \<and> (\<forall>Ty. BaseTy \<noteq> MetaTypeType Ty) \<longrightarrow>
      MemberLookup BaseTy0 Name M =
        filter isFieldResult (MemberLookup BaseTy0 Name M) @
        filter (\<lambda>R. \<not> isFieldResult R) (MemberLookup BaseTy0 Name M) \<and>
      ((\<forall>lv. BaseTy \<noteq> ModuleType lv) \<and> protocolMember BaseTy Name = None \<longrightarrow>
         MemberLookup BaseTy0 Name M =
           fieldCandidates BaseTy Name @
           map extensionMethod (lookupGlobalExtensionMethods M BaseTy Name) \<and>
         list_all isFieldResult (fieldCandidates BaseTy Name) \<and>
         list_all (\<lambda>R. \<not> isFieldResult R)
           (map extensionMethod (lookupGlobalExtensionMethods M BaseTy Name)))) \<and>
   (lookThroughLValue BaseTy0 = MetaTypeType (OneOfType n elts tr) \<and>
    getElement elts Name = Some Elt \<longrightarrow>
      MemberLookup BaseTy0 Name M =
        getIgnoreBase Elt #
        concat (map withoutBase (MemberLookup (OneOfType n elts tr) Name M)))"
proof (intro conjI impI; (elim conjE)?)
  assume look: "lookThroughLValue BaseTy0 = BaseTy" and nm: "\<forall>Ty. BaseTy \<noteq> MetaTypeType Ty"
  have split: "Rs = filter isFieldResult Rs @ filter (\<lambda>R. \<not> isFieldResult R) Rs"
    if "Rs = fs @ es" "list_all isFieldResult fs" "list_all (\<lambda>R. \<not> isFieldResult R) es"
    for Rs fs es :: "MemberLookupResult list"
  proof -
    have "filter isFieldResult fs = fs" "filter isFieldResult es = []"
      "filter (\<lambda>R. \<not> isFieldResult R) fs = []" "filter (\<lambda>R. \<not> isFieldResult R) es = es"
      using that(2,3) by (simp_all add: list_all_iff filter_empty_conv)
    then show ?thesis by (simp add: that(1))
  qed
  show "MemberLookup BaseTy0 Name M =
        filter isFieldResult (MemberLookup BaseTy0 Name M) @
        filter (\<lambda>R. \<not> isFieldResult R) (MemberLookup BaseTy0 Name M)"
  proof (cases "\<exists>lv. BaseTy = ModuleType lv")
    case True
    then obtain lv where "BaseTy = ModuleType lv" by blast
    with look have "MemberLookup BaseTy0 Name M = [] @ map getIgnoreBase (lv Name)"
      by (simp add: MemberLookup_def doIt_ModuleType)
    then show ?thesis
      by (rule split) (simp_all add: list_all_iff isFieldResult_def)
  next
    case False
    then have inst: "MemberLookup BaseTy0 Name M =
        (case protocolMember BaseTy Name of
           Some R \<Rightarrow> [] @ [R]
         | None \<Rightarrow>
             [] @ fieldCandidates BaseTy Name @
             map extensionMethod (lookupGlobalExtensionMethods M BaseTy Name))"
      unfolding MemberLookup_def using nm by (intro doIt_instance [OF look]) auto
    show ?thesis
    proof (cases "protocolMember BaseTy Name")
      case None
      with inst have "MemberLookup BaseTy0 Name M =
          fieldCandidates BaseTy Name @
          map extensionMethod (lookupGlobalExtensionMethods M BaseTy Name)"
        by simp
      then show ?thesis
      proof (rule split)
        show "list_all isFieldResult (fieldCandidates BaseTy Name)"
          by (rule isFieldResult_fieldCandidates)
        show "list_all (\<lambda>R. \<not> isFieldResult R)
            (map extensionMethod (lookupGlobalExtensionMethods M BaseTy Name))"
          by (simp add: list_all_iff not_isFieldResult_extensionMethod)
      qed
    next
      case (Some R)
      then have "\<not> isFieldResult R"
        by (auto simp: protocolMember_def split: Type.splits
            dest: not_isFieldResult_protocolElement)
      moreover from inst Some have "MemberLookup BaseTy0 Name M = [R]" by simp
      ultimately show ?thesis by simp
    qed
  qed
next
  assume look: "lookThroughLValue BaseTy0 = BaseTy" and nm: "\<forall>Ty. BaseTy \<noteq> MetaTypeType Ty"
    and nmod: "\<forall>lv. BaseTy \<noteq> ModuleType lv" and np: "protocolMember BaseTy Name = None"
  show "MemberLookup BaseTy0 Name M =
           fieldCandidates BaseTy Name @
           map extensionMethod (lookupGlobalExtensionMethods M BaseTy Name)"
    unfolding MemberLookup_def using nm nmod np
    by (subst doIt_instance [OF look]) auto
next
  show "list_all isFieldResult (fieldCandidates BaseTy Name)"
    by (rule isFieldResult_fieldCandidates)
next
  show "list_all (\<lambda>R. \<not> isFieldResult R)
           (map extensionMethod (lookupGlobalExtensionMethods M BaseTy Name))"
    by (simp add: list_all_iff not_isFieldResult_extensionMethod)
next
  assume look: "lookThroughLValue BaseTy0 = MetaTypeType (OneOfType n elts tr)"
    and elt: "getElement elts Name = Some Elt"
  let ?Ty = "OneOfType n elts tr"
  have o: "oneofElement ?Ty Name = [getIgnoreBase Elt]"
    by (simp add: oneofElement_def elt)
  have l: "lookThroughLValue ?Ty = ?Ty" by (simp add: lookThroughLValue_def)
  have p: "protocolMember ?Ty Name = None" by (simp add: protocolMember_def)
  have "doIt ?Ty Name M Rs =
      Rs @ fieldCandidates ?Ty Name @
      map extensionMethod (lookupGlobalExtensionMethods M ?Ty Name)" for Rs
    using doIt_instance [OF l, of Name M Rs] by (simp add: p)
  then have "doIt ?Ty Name M [getIgnoreBase Elt] = getIgnoreBase Elt # doIt ?Ty Name M []"
    by simp
  then show "MemberLookup BaseTy0 Name M =
        getIgnoreBase Elt # concat (map withoutBase (MemberLookup ?Ty Name M))"
    by (simp add: MemberLookup_def doIt_MetaTypeType [OF look] o)
qed

theorem doIt_discovery_order_witness:
  "MemberLookup example_S ''x'' example_M =
     fieldCandidates example_S ''x'' @
     map extensionMethod (lookupGlobalExtensionMethods example_M example_S ''x'') \<and>
   fieldCandidates example_S ''x'' = [StructElementResult 0] \<and>
   map extensionMethod (lookupGlobalExtensionMethods example_M example_S ''x'') =
     [getPassBase example_x] \<and>
   MemberLookup (MetaTypeType example_E) ''A'' example_ME =
     getIgnoreBase \<lparr>declId = 5, getName = ''A'', declClass = OneOfElementDecl\<rparr> #
     concat (map withoutBase (MemberLookup example_E ''A'' example_ME))"
proof -
  have "lookThroughLValue example_S = example_S"
    by (simp add: lookThroughLValue_def example_S_def)
  moreover have "\<forall>Ty. example_S \<noteq> MetaTypeType Ty" "\<forall>lv. example_S \<noteq> ModuleType lv"
    "protocolMember example_S ''x'' = None"
    by (simp_all add: example_S_def protocolMember_def)
  ultimately have "MemberLookup example_S ''x'' example_M =
     fieldCandidates example_S ''x'' @
     map extensionMethod (lookupGlobalExtensionMethods example_M example_S ''x'')"
    using doIt_discovery_order [where ?BaseTy0.0 = example_S and BaseTy = example_S
        and Name = "''x''" and M = example_M]
    by blast
  moreover have "fieldCandidates example_S ''x'' = [StructElementResult 0]"
    by (simp add: fieldCandidates_def example_S_def doTuple_def getTupleElement_def)
  moreover have "map extensionMethod (lookupGlobalExtensionMethods example_M example_S ''x'') =
     [getPassBase example_x]"
    by (simp add: example_M_def example_S_def extensionMethod_def example_x_def)
  moreover have "MemberLookup (MetaTypeType example_E) ''A'' example_ME =
     getIgnoreBase \<lparr>declId = 5, getName = ''A'', declClass = OneOfElementDecl\<rparr> #
     concat (map withoutBase (MemberLookup example_E ''A'' example_ME))"
  proof -
    have "lookThroughLValue (MetaTypeType example_E) =
        MetaTypeType (OneOfType ''E''
         [\<lparr>declId = 5, getName = ''A'', declClass = OneOfElementDecl\<rparr>,
          \<lparr>declId = 6, getName = ''B'', declClass = OneOfElementDecl\<rparr>] None)"
      by (simp add: lookThroughLValue_def example_E_def)
    moreover have "getElement
         [\<lparr>declId = 5, getName = ''A'', declClass = OneOfElementDecl\<rparr>,
          \<lparr>declId = 6, getName = ''B'', declClass = OneOfElementDecl\<rparr>] ''A'' =
        Some \<lparr>declId = 5, getName = ''A'', declClass = OneOfElementDecl\<rparr>"
      by simp
    ultimately show ?thesis
      using doIt_discovery_order [where ?BaseTy0.0 = "MetaTypeType example_E"
          and Name = "''A''" and M = example_ME and n = "''E''" and tr = None
          and Elt = "\<lparr>declId = 5, getName = ''A'', declClass = OneOfElementDecl\<rparr>"
          and elts = "[\<lparr>declId = 5, getName = ''A'', declClass = OneOfElementDecl\<rparr>,
            \<lparr>declId = 6, getName = ''B'', declClass = OneOfElementDecl\<rparr>]"]
      unfolding example_E_def by blast
  qed
  ultimately show ?thesis by blast
qed

section \<open>The expression of a result\<close>

text \<open>
  C6. For one tuple element result and a base expression whose type is an l-value type
  of a tuple type, \<open>createResultAST\<close> builds a tuple element expression whose type is
  the l-value type of the field's type with the qualifiers of the base's type and
  \<open>Implicit\<close> added, whatever the qualifiers of the base's type are.
\<close>

theorem createResultAST_tuple_element_lvalue:
  "getType Base = LValueType (TupleType TT) qs \<Longrightarrow> i < length TT \<Longrightarrow>
   createResultAST [TupleElementResult i] Base DotLoc NameLoc =
     Inr (if isValid DotLoc
          then SyntacticTupleElementExpr Base DotLoc i NameLoc
                 (LValueType (snd (TT ! i)) (insert Implicit qs))
          else ImplicitThisTupleElementExpr Base i NameLoc
                 (LValueType (snd (TT ! i)) (insert Implicit qs)))"
  by (simp add: createResultAST_def isSuccess_def buildTupleElementExpr_def makeSimilarLValue_def)

theorem createResultAST_tuple_element_lvalue_witness:
  "createResultAST [TupleElementResult 0]
     (OpaqueExpr 0 (LValueType (TupleType [(''x'', OtherType ''Int'')]) {OtherQual 1}))
     (Some 3) (Some 4) =
   Inr (SyntacticTupleElementExpr
     (OpaqueExpr 0 (LValueType (TupleType [(''x'', OtherType ''Int'')]) {OtherQual 1}))
     (Some 3) 0 (Some 4) (LValueType (OtherType ''Int'') {Implicit, OtherQual 1})) \<and>
   createResultAST [TupleElementResult 0]
     (OpaqueExpr 0 (LValueType (TupleType [(''x'', OtherType ''Int'')]) {Implicit}))
     None (Some 4) =
   Inr (ImplicitThisTupleElementExpr
     (OpaqueExpr 0 (LValueType (TupleType [(''x'', OtherType ''Int'')]) {Implicit}))
     0 (Some 4) (LValueType (OtherType ''Int'') {Implicit}))"
  using createResultAST_tuple_element_lvalue
    [of "OpaqueExpr 0 (LValueType (TupleType [(''x'', OtherType ''Int'')]) {OtherQual 1})"
      "[(''x'', OtherType ''Int'')]" "{OtherQual 1}" 0 "Some 3" "Some 4"]
    createResultAST_tuple_element_lvalue
    [of "OpaqueExpr 0 (LValueType (TupleType [(''x'', OtherType ''Int'')]) {Implicit})"
      "[(''x'', OtherType ''Int'')]" "{Implicit}" 0 None "Some 4"]
  by (simp add: isValid_def)

text \<open>
  C7. \<open>createResultAST\<close> fails with an assertion on no results, and on two results or
  more of which one is a tuple or struct element. On two results or more that all
  have a declaration it returns one \<open>OverloadedMemberRefExpr\<close> with the declarations
  of the results, in their order and as many as there are results.
\<close>

theorem createResultAST_contract:
  "createResultAST [] Base DotLoc NameLoc = Inl NothingFound \<and>
   (2 \<le> length Results \<and> list_ex isFieldResult Results \<longrightarrow>
      createResultAST Results Base DotLoc NameLoc = Inl ElementInOverloadSet) \<and>
   (2 \<le> length Results \<and> list_all (\<lambda>R. \<not> isFieldResult R) Results \<longrightarrow>
      createResultAST Results Base DotLoc NameLoc =
        Inr (OverloadedMemberRefExpr Base DotLoc (declsOf Results) NameLoc) \<and>
      length (declsOf Results) = length Results)"
proof (intro conjI impI; (elim conjE)?)
  show "createResultAST [] Base DotLoc NameLoc = Inl NothingFound"
    by (simp add: createResultAST_def isSuccess_def)
next
  assume "2 \<le> length Results" and "list_ex isFieldResult Results"
  then show "createResultAST Results Base DotLoc NameLoc = Inl ElementInOverloadSet"
    by (auto simp: createResultAST_def isSuccess_def overloadSet_decls)
next
  assume "2 \<le> length Results" and "list_all (\<lambda>R. \<not> isFieldResult R) Results"
  then show "createResultAST Results Base DotLoc NameLoc =
        Inr (OverloadedMemberRefExpr Base DotLoc (declsOf Results) NameLoc)"
    by (auto simp: createResultAST_def isSuccess_def overloadSet_decls list_ex_iff list_all_iff)
next
  assume "list_all (\<lambda>R. \<not> isFieldResult R) Results"
  then show "length (declsOf Results) = length Results"
  proof (induction Results)
    case Nil
    show ?case by (simp add: declsOf_def)
  next
    case (Cons R Rs)
    then show ?case by (cases R) (simp_all add: declsOf_def isFieldResult_def)
  qed
qed

theorem createResultAST_contract_witness:
  "createResultAST [TupleElementResult 0, getPassBase example_x] (OpaqueExpr 0 example_T)
     (Some 1) (Some 2) = Inl ElementInOverloadSet \<and>
   createResultAST [getPassBase example_x, getIgnoreBase (example_f 2 True), getPassBase example_x]
     (OpaqueExpr 0 example_T) (Some 1) (Some 2) =
   Inr (OverloadedMemberRefExpr (OpaqueExpr 0 example_T) (Some 1)
     [example_x, example_f 2 True, example_x] (Some 2))"
  using createResultAST_contract
    [of "OpaqueExpr 0 example_T" "Some 1" "Some 2" "[TupleElementResult 0, getPassBase example_x]"]
    createResultAST_contract
    [of "OpaqueExpr 0 example_T" "Some 1" "Some 2"
      "[getPassBase example_x, getIgnoreBase (example_f 2 True), getPassBase example_x]"]
  by (simp add: isFieldResult_def declsOf_def)

end
